theory Spec2Isabelle
  imports Complex_Main "HOL-Library.Code_Target_Numeral"
begin

section \<open>The metrics engine of the project health monitor\<close>

text \<open>
  A shallow embedding of \<^verbatim>\<open>src/lib/calculations.ts\<close> and of the types it reads from
  \<^verbatim>\<open>src/types/index.ts\<close>.

  Conventions of the embedding:
  \<^item> a JavaScript \<^verbatim>\<open>number\<close> is an exact \<^typ>\<open>real\<close>; lengths and counts are
    \<^typ>\<open>nat\<close>, embedded by \<^const>\<open>real\<close> where the source divides them. NaN, the
    infinities and the rounding of IEEE doubles are outside the model;
  \<^item> \<^verbatim>\<open>Math.round\<close> is \<^const>\<open>round\<close>, which is \<open>\<lfloor>x + 1/2\<rfloor>\<close> in both;
  \<^item> a \<^verbatim>\<open>Date\<close> is its time value in milliseconds, or the Invalid Date; a field of type
    \<^verbatim>\<open>Date | null\<close> is an \<^typ>\<open>'a option\<close>;
  \<^item> an optional string parameter is a \<^typ>\<open>string option\<close>; as in JavaScript, the
    absent and the empty string are both falsy;
  \<^item> a thrown exception is the \<open>Inl\<close> branch of a sum.
\<close>

subsection \<open>Types\<close>

datatype TaskStatus = Completed | InProgress | NotStarted

datatype RAG = Red | Amber | Green

datatype ProjectType = BL | PC | PM | WPM

datatype JSDate = Date int | InvalidDate

record Task =
  portfolioName :: string
  projectName :: string
  typeOfProject :: ProjectType
  workPackageName :: string
  taskId :: string
  taskName :: string
  functionalManager :: string
  plannedDuration :: real
  actualDuration :: real
  assignedResource :: string
  plannedBudget :: real
  totalSpent :: real
  status :: TaskStatus
  baselineStart :: "JSDate option"
  baselineEnd :: "JSDate option"
  plannedStart :: "JSDate option"
  actualStart :: "JSDate option"
  plannedEnd :: "JSDate option"
  actualEnd :: "JSDate option"
  ignoredDependencies :: bool
  resourceUtilisation :: real
  projectHealthRAG :: RAG
  totalReassessments :: real
  criticalPathVolatility :: real
  criticalPathRisk :: bool
  forecastHours :: real
  actualHours :: real
  etcHours :: real
  eacHours :: real

text \<open>
  \<^verbatim>\<open>new Date(a) <= new Date(b)\<close>: the relational operator compares the time values, and
  every comparison with the NaN of an Invalid Date is false.
\<close>

fun date_le :: "JSDate \<Rightarrow> JSDate \<Rightarrow> bool" where
  "date_le (Date a) (Date b) = (a \<le> b)"
| "date_le _ _ = False"

text \<open>
  \<^verbatim>\<open>p && a && new Date(a) <= new Date(p)\<close> on two nullable dates: a \<^verbatim>\<open>Date\<close> object is
  always truthy, \<^verbatim>\<open>null\<close> is falsy.
\<close>

fun onTime :: "JSDate option \<Rightarrow> JSDate option \<Rightarrow> bool" where
  "onTime (Some p) (Some a) = date_le a p"
| "onTime _ _ = False"

subsection \<open>Per-task metric functions\<close>

definition calculateForecastAccuracy :: "Task list \<Rightarrow> string option \<Rightarrow> real" where
  "calculateForecastAccuracy tasks manager =
     (let filteredTasks =
            (case manager of
               Some (c # cs) \<Rightarrow>
                 filter (\<lambda>t. functionalManager t = c # cs \<and> status t = Completed) tasks
             | _ \<Rightarrow> filter (\<lambda>t. status t = Completed) tasks)
      in if length filteredTasks = 0 then 0
         else let onTimeCount =
                    length (filter (\<lambda>t. onTime (plannedEnd t) (actualEnd t)) filteredTasks)
              in (real onTimeCount / real (length filteredTasks)) * 100)"

definition calculateCriticalPathHealth :: "Task list \<Rightarrow> real" where
  "calculateCriticalPathHealth tasks =
     (if length tasks = 0 then 0
      else let criticalTasks = filter criticalPathRisk tasks
           in if length criticalTasks = 0 then 100
              else let avgVolatility =
                         foldl (\<lambda>sum t. sum + criticalPathVolatility t) 0 criticalTasks
                           / real (length criticalTasks);
                       criticalPct = (real (length criticalTasks) / real (length tasks)) * 100;
                       maxVolatility = 10;
                       volatilityScore = max 0 (min 50 ((1 - avgVolatility / maxVolatility) * 50));
                       idealCriticalPct = 20;
                       concentrationScore =
                         max 0 (min 50 (50 - \<bar>criticalPct - idealCriticalPct\<bar> * 2))
                   in real_of_int (round (volatilityScore + concentrationScore)))"

definition calculateDurationVariance :: "Task list \<Rightarrow> string option \<Rightarrow> real" where
  "calculateDurationVariance tasks manager =
     (let filteredTasks =
            (case manager of
               Some (c # cs) \<Rightarrow>
                 filter (\<lambda>t. functionalManager t = c # cs \<and> status t = Completed) tasks
             | _ \<Rightarrow> filter (\<lambda>t. status t = Completed) tasks);
          validTasks = filter (\<lambda>t. plannedDuration t > 0 \<and> actualDuration t > 0) filteredTasks
      in if length validTasks = 0 then 0
         else let variances =
                    map (\<lambda>t. ((actualDuration t - plannedDuration t) / plannedDuration t) * 100)
                      validTasks
              in foldl (\<lambda>sum v. sum + v) 0 variances / real (length variances))"

text \<open>
  The regular expression \<^verbatim>\<open>/resource_|generic|tbd|unassigned|placeholder|to be determined/i\<close>
  has no anchors, so \<^verbatim>\<open>test\<close> asks whether one of six literals occurs in the string.
  Without the \<^verbatim>\<open>u\<close> flag the ignore-case comparison never identifies a character
  outside ASCII with an ASCII one, so folding the letters A to Z is exact.
\<close>

definition toLowerASCII :: "char \<Rightarrow> char" where
  "toLowerASCII c =
     (case map_of (zip ''ABCDEFGHIJKLMNOPQRSTUVWXYZ'' ''abcdefghijklmnopqrstuvwxyz'') c of
        Some l \<Rightarrow> l
      | None \<Rightarrow> c)"

fun startsWith :: "string \<Rightarrow> string \<Rightarrow> bool" where
  "startsWith _ [] = True"
| "startsWith [] (p # ps) = False"
| "startsWith (c # cs) (p # ps) = (c = p \<and> startsWith cs ps)"

fun containsStr :: "string \<Rightarrow> string \<Rightarrow> bool" where
  "containsStr [] p = startsWith [] p"
| "containsStr (c # cs) p = (startsWith (c # cs) p \<or> containsStr cs p)"

definition genericPatterns :: "string list" where
  "genericPatterns =
     [''resource_'', ''generic'', ''tbd'', ''unassigned'', ''placeholder'', ''to be determined'']"

definition genericPatterns_test :: "string \<Rightarrow> bool" where
  "genericPatterns_test s = list_ex (containsStr (map toLowerASCII s)) genericPatterns"

definition calculateGenericResourcePercentage :: "Task list \<Rightarrow> string option \<Rightarrow> real" where
  "calculateGenericResourcePercentage tasks manager =
     (let filteredTasks =
            (case manager of
               Some (c # cs) \<Rightarrow> filter (\<lambda>t. functionalManager t = c # cs) tasks
             | _ \<Rightarrow> tasks)
      in if length filteredTasks = 0 then 0
         else let generic =
                    length (filter (\<lambda>t. assignedResource t \<noteq> [] \<and>
                                         genericPatterns_test (assignedResource t)) filteredTasks)
              in (real generic / real (length filteredTasks)) * 100)"

definition calculateResourceUtilisation :: "Task list \<Rightarrow> string option \<Rightarrow> real" where
  "calculateResourceUtilisation tasks manager =
     (let filteredTasks =
            (case manager of
               Some (c # cs) \<Rightarrow> filter (\<lambda>t. functionalManager t = c # cs) tasks
             | _ \<Rightarrow> tasks);
          validTasks = filter (\<lambda>t. resourceUtilisation t > 0) filteredTasks
      in if length validTasks = 0 then 0
         else let totalUtilisation = foldl (\<lambda>sum t. sum + resourceUtilisation t) 0 validTasks
              in totalUtilisation / real (length validTasks))"

subsection \<open>Performance score\<close>

definition calculatePerformanceScore :: "Task list \<Rightarrow> real" where
  "calculatePerformanceScore tasks =
     (if length tasks = 0 then 0
      else let forecastScore = calculateForecastAccuracy tasks None;
               varianceScore = max 0 (100 - \<bar>calculateDurationVariance tasks None\<bar>);
               genericScore = max 0 (100 - calculateGenericResourcePercentage tasks None);
               criticalScore = calculateCriticalPathHealth tasks;
               greenPct =
                 (real (length (filter (\<lambda>t. projectHealthRAG t = Green) tasks))
                    / real (length tasks)) * 100;
               amberPct =
                 (real (length (filter (\<lambda>t. projectHealthRAG t = Amber) tasks))
                    / real (length tasks)) * 100;
               ragScore = greenPct + (amberPct * 0.5);
               score =
                 forecastScore * 0.35 +
                 varianceScore * 0.25 +
                 genericScore * 0.20 +
                 criticalScore * 0.10 +
                 ragScore * 0.10
           in real_of_int (round score))"

subsection \<open>Object literals used as dictionaries\<close>

text \<open>
  Both aggregations build \<^verbatim>\<open>{} as Record<string, Task[]>\<close> with
  \<^verbatim>\<open>if (!acc[k]) { acc[k] = []; } acc[k].push(task);\<close>.
  The object's own properties are an association list in creation order. The literal
  \<^verbatim>\<open>{}\<close> inherits from \<^verbatim>\<open>Object.prototype\<close>, so a read \<^verbatim>\<open>acc[k]\<close> of a name that
  is not an own property but is one of the prototype's yields the inherited value. Each
  of them is truthy (a function, or for \<^verbatim>\<open>__proto__\<close> the prototype object) and none
  has a \<^verbatim>\<open>push\<close> method: the guard is skipped and the call throws a TypeError.
\<close>

datatype error = TypeError

type_synonym 'v jsobject = "(string \<times> 'v) list"

definition objectPrototypeKeys :: "string list" where
  "objectPrototypeKeys =
     [''constructor'', ''hasOwnProperty'', ''isPrototypeOf'', ''propertyIsEnumerable'',
      ''toLocaleString'', ''toString'', ''valueOf'', ''__proto__'',
      ''__defineGetter__'', ''__defineSetter__'', ''__lookupGetter__'', ''__lookupSetter__'']"

definition groupPush :: "Task list jsobject \<Rightarrow> string \<Rightarrow> Task \<Rightarrow> error + Task list jsobject" where
  "groupPush acc k task =
     (case map_of acc k of
        Some _ \<Rightarrow> Inr (map (\<lambda>(k', v). if k' = k then (k', v @ [task]) else (k', v)) acc)
      | None \<Rightarrow>
          if List.member objectPrototypeKeys k then Inl TypeError
          else Inr (acc @ [(k, [task])]))"

text \<open>\<^verbatim>\<open>tasks.reduce((acc, task) => ..., {})\<close> with the key expression as a parameter.\<close>

fun groupTasks ::
  "(Task \<Rightarrow> string) \<Rightarrow> Task list jsobject \<Rightarrow> Task list \<Rightarrow> error + Task list jsobject" where
  "groupTasks key acc [] = Inr acc"
| "groupTasks key acc (task # tasks) =
     (case groupPush acc (key task) task of
        Inl e \<Rightarrow> Inl e
      | Inr acc' \<Rightarrow> groupTasks key acc' tasks)"

text \<open>
  \<^verbatim>\<open>Object.entries\<close> lists the own properties whose name is an array index (the canonical
  decimal numeral of an integer from 0 to \<open>2\<^sup>3\<^sup>2 - 2\<close>) first, in ascending numeric order,
  and the other names after them in creation order.
\<close>

definition digitValue :: "char \<Rightarrow> nat option" where
  "digitValue c = map_of (zip ''0123456789'' [0..<10]) c"

fun parseDigits :: "nat \<Rightarrow> string \<Rightarrow> nat option" where
  "parseDigits n [] = Some n"
| "parseDigits n (c # cs) =
     (case digitValue c of None \<Rightarrow> None | Some d \<Rightarrow> parseDigits (10 * n + d) cs)"

definition arrayIndex :: "string \<Rightarrow> nat option" where
  "arrayIndex s =
     (case s of
        [] \<Rightarrow> None
      | c # cs \<Rightarrow>
          if c = CHR ''0'' \<and> cs \<noteq> [] then None
          else (case parseDigits 0 s of
                  None \<Rightarrow> None
                | Some n \<Rightarrow> if n < 2 ^ 32 - 1 then Some n else None))"

definition objectEntries :: "'v jsobject \<Rightarrow> (string \<times> 'v) list" where
  "objectEntries obj =
     sort_key (\<lambda>(k, v). case arrayIndex k of Some n \<Rightarrow> n | None \<Rightarrow> 0)
       (filter (\<lambda>(k, v). arrayIndex k \<noteq> None) obj)
     @ filter (\<lambda>(k, v). arrayIndex k = None) obj"

subsection \<open>Manager aggregation\<close>

record ManagerMetrics =
  manager :: string
  totalTasks :: nat
  completedTasks :: nat
  onTimeStartCount :: nat
  onTimeEndCount :: nat
  forecastAccuracy :: real
  avgDurationVariance :: real
  genericResourcePct :: real
  criticalPathTasks :: nat
  redRAGCount :: nat
  amberRAGCount :: nat
  greenRAGCount :: nat
  performanceScore :: real

definition managerKey :: "Task \<Rightarrow> string" where
  "managerKey task = (if functionalManager task = [] then ''Unassigned'' else functionalManager task)"

definition managerMetricsOf :: "string \<Rightarrow> Task list \<Rightarrow> ManagerMetrics" where
  "managerMetricsOf mgr managerTasks =
     (let completed = filter (\<lambda>t. status t = Completed) managerTasks;
          onTimeStarts = length (filter (\<lambda>t. onTime (plannedStart t) (actualStart t)) completed);
          onTimeEnds = length (filter (\<lambda>t. onTime (plannedEnd t) (actualEnd t)) completed)
      in \<lparr> manager = mgr,
           totalTasks = length managerTasks,
           completedTasks = length completed,
           onTimeStartCount = onTimeStarts,
           onTimeEndCount = onTimeEnds,
           forecastAccuracy = calculateForecastAccuracy managerTasks None,
           avgDurationVariance = calculateDurationVariance managerTasks None,
           genericResourcePct = calculateGenericResourcePercentage managerTasks None,
           criticalPathTasks = length (filter criticalPathRisk managerTasks),
           redRAGCount = length (filter (\<lambda>t. projectHealthRAG t = Red) managerTasks),
           amberRAGCount = length (filter (\<lambda>t. projectHealthRAG t = Amber) managerTasks),
           greenRAGCount = length (filter (\<lambda>t. projectHealthRAG t = Green) managerTasks),
           performanceScore = calculatePerformanceScore managerTasks \<rparr>)"

text \<open>
  The comparator \<^verbatim>\<open>(a, b) => b.performanceScore - a.performanceScore\<close> sorts by
  descending score; \<^verbatim>\<open>Array.prototype.sort\<close> is stable, as \<^const>\<open>sort_key\<close> is.
\<close>

definition calculateManagerMetrics :: "Task list \<Rightarrow> error + ManagerMetrics list" where
  "calculateManagerMetrics tasks =
     (if length tasks = 0 then Inr []
      else case groupTasks managerKey [] tasks of
             Inl e \<Rightarrow> Inl e
           | Inr tasksByManager \<Rightarrow>
               Inr (sort_key (\<lambda>m. - performanceScore m)
                      (map (\<lambda>(mgr, managerTasks). managerMetricsOf mgr managerTasks)
                         (objectEntries tasksByManager))))"

subsection \<open>Project aggregation\<close>

record ProjectMetrics =
  projectName :: string
  totalTasks :: nat
  completedPct :: real
  forecastAccuracy :: real
  avgDurationVariance :: real
  genericResourcePct :: real
  criticalPathTasksPct :: real
  ragStatus :: RAG
  predictedRAG :: RAG
  topRisks :: "string list"

definition predictRAGStatus :: "ProjectMetrics \<Rightarrow> RAG" where
  "predictRAGStatus metrics =
     (if forecastAccuracy metrics < 50 \<or>
         genericResourcePct metrics > 80 \<or>
         avgDurationVariance metrics > 25 \<or>
         criticalPathTasksPct metrics > 40
      then Red
      else if forecastAccuracy metrics < 70 \<or>
              genericResourcePct metrics > 50 \<or>
              avgDurationVariance metrics > 15 \<or>
              criticalPathTasksPct metrics > 30
      then Amber
      else Green)"

text \<open>
  Template literals print a length in decimal, and \<^verbatim>\<open>x.toFixed(1)\<close> prints the integer
  \<open>n\<close> nearest to \<open>10 * \<bar>x\<bar>\<close> (the larger one of two) as \<open>n div 10\<close>, a point and
  \<open>n mod 10\<close>, after a minus sign when \<open>x < 0\<close>. (From \<open>10\<^sup>2\<^sup>1\<close> on \<^verbatim>\<open>toFixed\<close> switches
  to exponent notation, which is not modelled.)
\<close>

definition digitChar :: "nat \<Rightarrow> char" where
  "digitChar d = ''0123456789'' ! (d mod 10)"

fun showNat :: "nat \<Rightarrow> string" where
  "showNat n = (if n < 10 then [digitChar n] else showNat (n div 10) @ [digitChar (n mod 10)])"

declare showNat.simps [simp del]

definition toFixed1 :: "real \<Rightarrow> string" where
  "toFixed1 x =
     (let n = nat \<lfloor>\<bar>x\<bar> * 10 + 1 / 2\<rfloor>
      in (if x < 0 then ''-'' else []) @ showNat (n div 10) @ ''.'' @ showNat (n mod 10))"

definition identifyProjectRisks :: "Task list \<Rightarrow> ProjectMetrics \<Rightarrow> string list" where
  "identifyProjectRisks projectTasks metrics =
     (let risks0 = [];
          risks1 = (if forecastAccuracy metrics < 60
                    then risks0 @ [''Low forecast accuracy ('' @
                                     toFixed1 (forecastAccuracy metrics) @ ''%)'']
                    else risks0);
          risks2 = (if genericResourcePct metrics > 60
                    then risks1 @ [''High generic resource usage ('' @
                                     toFixed1 (genericResourcePct metrics) @ ''%)'']
                    else risks1);
          risks3 = (if avgDurationVariance metrics > 20
                    then risks2 @ [''Large duration variance (+'' @
                                     toFixed1 (avgDurationVariance metrics) @ ''%)'']
                    else risks2);
          risks4 = (if criticalPathTasksPct metrics > 35
                    then risks3 @ [''Oversized critical path ('' @
                                     toFixed1 (criticalPathTasksPct metrics) @ ''%)'']
                    else risks3);
          highVolatilityTasks = filter (\<lambda>t. criticalPathVolatility t > 5) projectTasks;
          risks5 = (if length highVolatilityTasks > 0
                    then risks4 @ [showNat (length highVolatilityTasks) @
                                     '' tasks with high critical path volatility'']
                    else risks4);
          overBudgetTasks = filter (\<lambda>t. totalSpent t > plannedBudget t * 1.1) projectTasks;
          risks6 = (if length overBudgetTasks > 0
                    then risks5 @ [showNat (length overBudgetTasks) @ '' tasks over budget by >10%'']
                    else risks5)
      in take 5 risks6)"

definition projectKey :: "Task \<Rightarrow> string" where
  "projectKey task =
     (if Task.projectName task = [] then ''Unnamed Project'' else Task.projectName task)"

text \<open>
  \<^verbatim>\<open>Object.keys(ragCounts).reduce((a, b) => ragCounts[a] > ragCounts[b] ? a : b)\<close>: the keys
  are \<^verbatim>\<open>Red\<close>, \<^verbatim>\<open>Amber\<close>, \<^verbatim>\<open>Green\<close> in this order, and with no initial value the
  first key starts the fold.
\<close>

definition ragCounts :: "Task list \<Rightarrow> RAG \<Rightarrow> nat" where
  "ragCounts projectTasks r = length (filter (\<lambda>t. projectHealthRAG t = r) projectTasks)"

definition currentRAG :: "Task list \<Rightarrow> RAG" where
  "currentRAG projectTasks =
     foldl (\<lambda>a b. if ragCounts projectTasks a > ragCounts projectTasks b then a else b)
       Red [Amber, Green]"

definition projectMetricsOf :: "string \<Rightarrow> Task list \<Rightarrow> ProjectMetrics" where
  "projectMetricsOf name projectTasks =
     (let completedPct' =
            (real (length (filter (\<lambda>t. status t = Completed) projectTasks))
               / real (length projectTasks)) * 100;
          criticalPathTasksPct' =
            (real (length (filter criticalPathRisk projectTasks))
               / real (length projectTasks)) * 100;
          metrics =
            \<lparr> projectName = name,
              totalTasks = length projectTasks,
              completedPct = completedPct',
              forecastAccuracy = calculateForecastAccuracy projectTasks None,
              avgDurationVariance = calculateDurationVariance projectTasks None,
              genericResourcePct = calculateGenericResourcePercentage projectTasks None,
              criticalPathTasksPct = criticalPathTasksPct',
              ragStatus = currentRAG projectTasks,
              predictedRAG = Green,
              topRisks = [] \<rparr>;
          metrics1 = metrics\<lparr>predictedRAG := predictRAGStatus metrics\<rparr>
      in metrics1\<lparr>topRisks := identifyProjectRisks projectTasks metrics1\<rparr>)"

definition calculateProjectMetrics :: "Task list \<Rightarrow> error + ProjectMetrics list" where
  "calculateProjectMetrics tasks =
     (if length tasks = 0 then Inr []
      else case groupTasks projectKey [] tasks of
             Inl e \<Rightarrow> Inl e
           | Inr tasksByProject \<Rightarrow>
               Inr (map (\<lambda>(name, projectTasks). projectMetricsOf name projectTasks)
                      (objectEntries tasksByProject)))"

subsection \<open>Portfolio roll-up\<close>

record RagDistribution =
  redTasks :: nat
  amberTasks :: nat
  greenTasks :: nat

record PortfolioMetrics =
  totalProjects :: nat
  totalTasks :: nat
  avgForecastAccuracy :: real
  genericResourcePct :: real
  criticalPathTasksPct :: real
  ragDistribution :: RagDistribution
  managerMetrics :: "ManagerMetrics list"

text \<open>
  \<^verbatim>\<open>new Set(tasks.map(t => t.projectName)).size\<close> is the number of distinct names, which
  \<^const>\<open>remdups\<close> leaves.
\<close>

definition calculatePortfolioMetrics :: "Task list \<Rightarrow> error + PortfolioMetrics" where
  "calculatePortfolioMetrics tasks =
     (if length tasks = 0
      then Inr \<lparr> totalProjects = 0,
                 totalTasks = 0,
                 avgForecastAccuracy = 0,
                 genericResourcePct = 0,
                 criticalPathTasksPct = 0,
                 ragDistribution = \<lparr> redTasks = 0, amberTasks = 0, greenTasks = 0 \<rparr>,
                 managerMetrics = [] \<rparr>
      else let uniqueProjects = remdups (map Task.projectName tasks);
               ragDistribution' =
                 \<lparr> redTasks = length (filter (\<lambda>t. projectHealthRAG t = Red) tasks),
                   amberTasks = length (filter (\<lambda>t. projectHealthRAG t = Amber) tasks),
                   greenTasks = length (filter (\<lambda>t. projectHealthRAG t = Green) tasks) \<rparr>
           in case calculateManagerMetrics tasks of
                Inl e \<Rightarrow> Inl e
              | Inr managerMetrics' \<Rightarrow>
                  Inr \<lparr> totalProjects = length uniqueProjects,
                        totalTasks = length tasks,
                        avgForecastAccuracy = calculateForecastAccuracy tasks None,
                        genericResourcePct = calculateGenericResourcePercentage tasks None,
                        criticalPathTasksPct =
                          (real (length (filter criticalPathRisk tasks)) / real (length tasks)) * 100,
                        ragDistribution = ragDistribution',
                        managerMetrics = managerMetrics' \<rparr>)"

subsection \<open>Behavioural pattern detector\<close>

datatype PatternType =
  chronic_optimism | generic_resource_overuse | critical_path_instability | resource_hoarding

datatype Severity = high | medium | low

record BehaviouralPattern =
  patternType :: PatternType
  severity :: Severity
  description :: string
  affectedManagers :: "string list"
  recommendation :: string

text \<open>\<^verbatim>\<open>[...new Set(xs)]\<close> keeps the first occurrence of each element, in order.\<close>

fun uniqueInOrder :: "'a list \<Rightarrow> 'a list \<Rightarrow> 'a list" where
  "uniqueInOrder seen [] = []"
| "uniqueInOrder seen (x # xs) =
     (if List.member seen x then uniqueInOrder seen xs else x # uniqueInOrder (seen @ [x]) xs)"

definition severityOrder :: "Severity \<Rightarrow> int" where
  "severityOrder s = (case s of high \<Rightarrow> 3 | medium \<Rightarrow> 2 | low \<Rightarrow> 1)"

definition optimismPattern :: "ManagerMetrics list \<Rightarrow> BehaviouralPattern list" where
  "optimismPattern mms =
     (let optimists =
            filter (\<lambda>m. ManagerMetrics.avgDurationVariance m > 15 \<and>
                        ManagerMetrics.forecastAccuracy m < 60) mms
      in case optimists of
           [] \<Rightarrow> []
         | first # _ \<Rightarrow>
             [\<lparr> patternType = chronic_optimism,
                severity = (if real (length optimists) > real (length mms) * 0.5
                            then high else medium),
                description =
                  showNat (length optimists) @
                  '' manager(s) consistently underestimate task duration by '' @
                  toFixed1 (ManagerMetrics.avgDurationVariance first) @ ''% on average'',
                affectedManagers = map manager optimists,
                recommendation =
                  ''Implement historical data analysis and add buffer time based on past performance. Consider planning poker sessions with the team.'' \<rparr>])"

definition genericPattern :: "ManagerMetrics list \<Rightarrow> BehaviouralPattern list" where
  "genericPattern mms =
     (let genericAbusers = filter (\<lambda>m. ManagerMetrics.genericResourcePct m > 70) mms
      in case genericAbusers of
           [] \<Rightarrow> []
         | first # _ \<Rightarrow>
             [\<lparr> patternType = generic_resource_overuse,
                severity = (if real (length genericAbusers) > real (length mms) * 0.3
                            then high else medium),
                description =
                  showNat (length genericAbusers) @ '' manager(s) use generic resources for '' @
                  toFixed1 (ManagerMetrics.genericResourcePct first) @ ''% of tasks'',
                affectedManagers = map manager genericAbusers,
                recommendation =
                  ''Require named resource assignments 4+ weeks before task start. Implement resource booking system with advance planning incentives.'' \<rparr>])"

definition instabilityPattern :: "Task list \<Rightarrow> BehaviouralPattern list" where
  "instabilityPattern tasks =
     (let highVolatility = length (filter (\<lambda>t. criticalPathVolatility t > 5) tasks)
      in if real highVolatility > real (length tasks) * 0.2
         then [\<lparr> patternType = critical_path_instability,
                  severity = (if real highVolatility > real (length tasks) * 0.3
                              then high else medium),
                  description =
                    showNat highVolatility @ '' tasks ('' @
                    toFixed1 ((real highVolatility / real (length tasks)) * 100) @
                    ''%) show high critical path volatility'',
                  affectedManagers =
                    uniqueInOrder []
                      (map functionalManager (filter (\<lambda>t. criticalPathVolatility t > 5) tasks)),
                  recommendation =
                    ''Stabilize critical path through dependency review, buffer management, and reducing multitasking on critical tasks.'' \<rparr>]
         else [])"

definition isHoarder :: "Task list \<Rightarrow> ManagerMetrics \<Rightarrow> bool" where
  "isHoarder tasks m =
     (let managerTasks = filter (\<lambda>t. functionalManager t = manager m) tasks;
          avgUtil = calculateResourceUtilisation managerTasks None
      in avgUtil < 60 \<and> ManagerMetrics.totalTasks m > 5)"

definition hoardingPattern :: "Task list \<Rightarrow> ManagerMetrics list \<Rightarrow> BehaviouralPattern list" where
  "hoardingPattern tasks mms =
     (let hoarders = filter (isHoarder tasks) mms
      in if length hoarders > 0
         then [\<lparr> patternType = resource_hoarding,
                  severity = (if real (length hoarders) > real (length mms) * 0.3
                              then high else low),
                  description =
                    showNat (length hoarders) @
                    '' manager(s) showing low resource utilisation (<60%)'',
                  affectedManagers = map manager hoarders,
                  recommendation =
                    ''Review resource allocation and capacity. Consider resource sharing across teams and reduce resource hoarding.'' \<rparr>]
         else [])"

text \<open>
  The four rules push onto \<^verbatim>\<open>patterns\<close> in this order; the final stable sort is by
  descending \<^verbatim>\<open>severityOrder\<close>.
\<close>

definition detectBehaviouralPatterns ::
  "Task list \<Rightarrow> ManagerMetrics list \<Rightarrow> BehaviouralPattern list" where
  "detectBehaviouralPatterns tasks mms =
     (let patterns =
            optimismPattern mms @ genericPattern mms @ instabilityPattern tasks @
            hoardingPattern tasks mms
      in sort_key (\<lambda>p. - severityOrder (severity p)) patterns)"

subsection \<open>Reference formulations\<close>

text \<open>
  The definitions of this subsection are not translations of code. They write down
  formulas of the specification, to be compared with the functions above, and sample
  data on which the functions are evaluated.
\<close>

text \<open>
  Forecast accuracy in the specification's words: on-time Completed tasks over the
  Completed tasks that have both dates, times 100; 0 when there is none.
\<close>

definition forecastAccuracy_spec :: "Task list \<Rightarrow> string option \<Rightarrow> real" where
  "forecastAccuracy_spec tasks mgr =
     (let scope =
            (case mgr of
               Some (c # cs) \<Rightarrow> filter (\<lambda>t. functionalManager t = c # cs) tasks
             | _ \<Rightarrow> tasks);
          dated = filter (\<lambda>t. status t = Completed \<and> plannedEnd t \<noteq> None \<and> actualEnd t \<noteq> None)
                    scope;
          met = filter (\<lambda>t. onTime (plannedEnd t) (actualEnd t)) dated
      in if length dated = 0 then 0 else (real (length met) / real (length dated)) * 100)"

text \<open>
  The current RAG in the specification's words: the value with the highest count, the
  earlier value in the order Red, Amber, Green winning a tie.
\<close>

definition currentRAG_spec :: "Task list \<Rightarrow> RAG" where
  "currentRAG_spec ts =
     (if ragCounts ts Amber \<le> ragCounts ts Red \<and> ragCounts ts Green \<le> ragCounts ts Red then Red
      else if ragCounts ts Green \<le> ragCounts ts Amber then Amber
      else Green)"

text \<open>The weighted score of the specification as a function of its five inputs.\<close>

definition performanceScore_spec :: "real \<Rightarrow> real \<Rightarrow> real \<Rightarrow> real \<Rightarrow> real \<Rightarrow> real" where
  "performanceScore_spec fa dv gp cp rag =
     real_of_int (round (0.35 * fa + 0.25 * max 0 (100 - \<bar>dv\<bar>) + 0.20 * max 0 (100 - gp)
                         + 0.10 * cp + 0.10 * rag))"

definition ragScore_spec :: "Task list \<Rightarrow> real" where
  "ragScore_spec ts =
     (real (length (filter (\<lambda>t. projectHealthRAG t = Green) ts)) / real (length ts)) * 100
     + 0.5 * ((real (length (filter (\<lambda>t. projectHealthRAG t = Amber) ts)) / real (length ts)) * 100)"

text \<open>
  Resource utilisation in the specification's words: the mean of the utilisation values
  over the tasks with utilisation above 0, and 0 when there is no such task. A manager
  of the metrics list hoards when this mean over the manager's tasks is below 60 and
  the manager's task count exceeds 5. A manager's tasks are those of the manager's
  group in the aggregation: the tasks whose manager key is the manager's name, so that
  the tasks with an empty manager belong to "Unassigned".
\<close>

definition meanUtilisation_spec :: "Task list \<Rightarrow> real" where
  "meanUtilisation_spec ts =
     (let us = filter (\<lambda>u. 0 < u) (map resourceUtilisation ts)
      in if us = [] then 0 else sum_list us / real (length us))"

definition hoarder_spec :: "Task list \<Rightarrow> ManagerMetrics \<Rightarrow> bool" where
  "hoarder_spec tasks m \<longleftrightarrow>
     meanUtilisation_spec (filter (\<lambda>t. managerKey t = manager m) tasks) < 60 \<and>
     5 < ManagerMetrics.totalTasks m"

text \<open>A task in progress with no dates and all numbers zero, to build sample inputs from.\<close>

definition sampleTask :: Task where
  "sampleTask =
     \<lparr> portfolioName = ''Portfolio'',
       projectName = ''Apollo'',
       typeOfProject = PM,
       workPackageName = ''WP1'',
       taskId = ''T1'',
       taskName = ''Task'',
       functionalManager = ''Alice'',
       plannedDuration = 0,
       actualDuration = 0,
       assignedResource = ''Bob'',
       plannedBudget = 0,
       totalSpent = 0,
       status = InProgress,
       baselineStart = None,
       baselineEnd = None,
       plannedStart = None,
       actualStart = None,
       plannedEnd = None,
       actualEnd = None,
       ignoredDependencies = False,
       resourceUtilisation = 0,
       projectHealthRAG = Green,
       totalReassessments = 0,
       criticalPathVolatility = 0,
       criticalPathRisk = False,
       forecastHours = 0,
       actualHours = 0,
       etcHours = 0,
       eacHours = 0 \<rparr>"

section \<open>Properties\<close>

subsection \<open>Grouping\<close>

lemma error_eq: "(e :: error) = e'"
  by (cases e; cases e') simp

lemma map_of_Some_key: "map_of acc k = Some v \<Longrightarrow> k \<in> fst ` set acc"
  by (metis map_of_eq_None_iff option.distinct(1))

lemma map_of_push:
  "map_of (map (\<lambda>(k', v). if k' = k then (k', v @ [x]) else (k', v)) acc) k' =
     (if k' = k then map_option (\<lambda>v. v @ [x]) (map_of acc k) else map_of acc k')"
  by (induction acc) auto

lemma fst_push:
  "map fst (map (\<lambda>(k', v). if k' = k then (k', v @ [x]) else (k', v)) acc) = map fst acc"
  by (induction acc) auto

lemma groupPush_keys:
  assumes "groupPush acc k x = Inr acc'"
  shows "map fst acc' = (if k \<in> set (map fst acc) then map fst acc else map fst acc @ [k])"
  using assms
  by (auto simp: groupPush_def fst_push map_of_eq_None_iff split: option.splits if_splits
           dest: map_of_Some_key)

lemma groupPush_map_of:
  assumes "groupPush acc k x = Inr acc'"
  shows "map_of acc' k' =
           (if k' = k then Some ((case map_of acc k of None \<Rightarrow> [] | Some v \<Rightarrow> v) @ [x])
            else map_of acc k')"
  using assms
  by (auto simp: groupPush_def map_of_push map_add_def split: option.splits if_splits)

lemma groupPush_fresh:
  assumes "groupPush acc k x = Inr acc'" "k \<notin> set (map fst acc)"
  shows "\<not> List.member objectPrototypeKeys k"
  using assms
  by (auto simp: groupPush_def map_of_eq_None_iff split: option.splits if_splits
           dest: map_of_Some_key)

lemma groupPush_returns:
  "(\<exists>acc'. groupPush acc k x = Inr acc') \<longleftrightarrow>
     (k \<in> set (map fst acc) \<or> \<not> List.member objectPrototypeKeys k)"
  by (auto simp: groupPush_def map_of_eq_None_iff split: option.splits if_splits
           dest: map_of_Some_key)

text \<open>
  The invariant of the grouping loop: after the tasks \<open>seen\<close>, the own keys are distinct and
  the value under a key is the list of the seen tasks with that key, in input order.
\<close>

lemma groupTasks_invariant:
  assumes "groupTasks key acc ts = Inr acc'"
    and "distinct (map fst acc)"
    and "\<And>k. map_of acc k =
            (if k \<in> key ` set seen then Some (filter (\<lambda>t. key t = k) seen) else None)"
  shows "distinct (map fst acc') \<and>
         (\<forall>k. map_of acc' k =
            (if k \<in> key ` set (seen @ ts) then Some (filter (\<lambda>t. key t = k) (seen @ ts))
             else None))"
  using assms
proof (induction ts arbitrary: acc seen)
  case Nil
  then show ?case by simp
next
  case (Cons t ts)
  from Cons.prems(1) obtain acc1 where
    push: "groupPush acc (key t) t = Inr acc1" and rest: "groupTasks key acc1 ts = Inr acc'"
    by (auto split: sum.splits)
  have keys: "set (map fst acc) = key ` set seen"
  proof -
    have "k \<in> set (map fst acc) \<longleftrightarrow> k \<in> key ` set seen" for k
      using Cons.prems(3)[of k] by (cases "map_of acc k") (auto simp: map_of_eq_None_iff split: if_splits dest: map_of_Some_key)
    then show ?thesis by blast
  qed
  have d1: "distinct (map fst acc1)"
    using groupPush_keys[OF push] Cons.prems(2) by (auto split: if_splits)
  have m1: "map_of acc1 k =
      (if k \<in> key ` set (seen @ [t]) then Some (filter (\<lambda>t. key t = k) (seen @ [t])) else None)" for k
    using groupPush_map_of[OF push, of k] Cons.prems(3)[of k] Cons.prems(3)[of "key t"]
    by (auto simp: empty_filter_conv filter_empty_conv image_iff split: if_splits)
  from Cons.IH[OF rest d1 m1] show ?case by simp
qed

lemma groupTasks_groups:
  assumes "groupTasks key [] ts = Inr acc"
  shows "distinct (map fst acc)"
    and "set (map fst acc) = key ` set ts"
    and "(k, g) \<in> set acc \<Longrightarrow> g = filter (\<lambda>t. key t = k) ts \<and> g \<noteq> []"
proof -
  have inv: "distinct (map fst acc) \<and>
         (\<forall>k. map_of acc k =
            (if k \<in> key ` set ([] @ ts) then Some (filter (\<lambda>t. key t = k) ([] @ ts)) else None))"
    by (rule groupTasks_invariant[OF assms]) simp_all
  then show d: "distinct (map fst acc)" by simp
  have m: "map_of acc k =
            (if k \<in> key ` set ts then Some (filter (\<lambda>t. key t = k) ts) else None)" for k
    using inv by simp
  show "set (map fst acc) = key ` set ts"
  proof -
    have "k \<in> set (map fst acc) \<longleftrightarrow> k \<in> key ` set ts" for k
      using m[of k] by (cases "map_of acc k") (auto simp: map_of_eq_None_iff split: if_splits dest: map_of_Some_key)
    then show ?thesis by blast
  qed
  show "g = filter (\<lambda>t. key t = k) ts \<and> g \<noteq> []" if "(k, g) \<in> set acc"
  proof -
    from that d have "map_of acc k = Some g" by simp
    with m[of k] have g: "k \<in> key ` set ts" "g = filter (\<lambda>t. key t = k) ts"
      by (auto split: if_splits)
    then show ?thesis by (auto simp: filter_empty_conv)
  qed
qed

lemma groupTasks_returns_aux:
  assumes "\<And>k. k \<in> set (map fst acc) \<Longrightarrow> \<not> List.member objectPrototypeKeys k"
  shows "(\<exists>acc'. groupTasks key acc ts = Inr acc') \<longleftrightarrow>
         \<not> list_ex (\<lambda>t. List.member objectPrototypeKeys (key t)) ts"
  using assms
proof (induction ts arbitrary: acc)
  case Nil
  then show ?case by simp
next
  case (Cons t ts)
  show ?case
  proof (cases "groupPush acc (key t) t")
    case (Inl e)
    then have "List.member objectPrototypeKeys (key t)"
      using groupPush_returns[of acc "key t" t] by auto
    with Inl show ?thesis by simp
  next
    case (Inr acc1)
    have ok: "\<not> List.member objectPrototypeKeys (key t)"
      using groupPush_returns[of acc "key t" t] Inr Cons.prems by auto
    have "\<not> List.member objectPrototypeKeys k" if "k \<in> set (map fst acc1)" for k
      using that groupPush_keys[OF Inr] Cons.prems ok by (auto split: if_splits)
    from Cons.IH[OF this] Inr ok show ?thesis by simp
  qed
qed

lemma groupTasks_returns:
  "(\<exists>acc. groupTasks key [] ts = Inr acc) \<longleftrightarrow>
     \<not> list_ex (\<lambda>t. List.member objectPrototypeKeys (key t)) ts"
  by (rule groupTasks_returns_aux) simp

lemma groupTasks_error:
  "groupTasks key [] ts = Inl e \<longleftrightarrow> list_ex (\<lambda>t. List.member objectPrototypeKeys (key t)) ts"
  using groupTasks_returns[of key ts] by (cases "groupTasks key [] ts") (auto intro: error_eq)

lemma set_objectEntries: "set (objectEntries obj) = set obj"
  by (auto simp: objectEntries_def)

lemma length_index_split:
  "length (filter (\<lambda>(k, v). arrayIndex k \<noteq> None) obj) +
   length (filter (\<lambda>(k, v). arrayIndex k = None) obj) = length obj"
  by (induction obj) auto

lemma length_objectEntries: "length (objectEntries obj) = length obj"
  using length_index_split[of obj] by (simp add: objectEntries_def)

lemma distinct_map_sort_key:
  "distinct (map h (sort_key k xs)) \<longleftrightarrow> distinct (map h xs)"
  by (simp add: distinct_map)

lemma distinct_map_objectEntries:
  "distinct (map fst obj) \<Longrightarrow> distinct (map fst (objectEntries obj))"
  by (auto simp: objectEntries_def distinct_map inj_on_def)

subsection \<open>Forecast accuracy\<close>

lemma onTime_dated: "onTime p a \<Longrightarrow> p \<noteq> None \<and> a \<noteq> None"
  by (cases p; cases a) auto

text \<open>
  C1 (as amended). For every task list, optionally filtered to one manager,
  \<open>calculateForecastAccuracy\<close> returns the number of Completed tasks that have both
  \<open>plannedEnd\<close> and \<open>actualEnd\<close> and whose \<open>actualEnd\<close> is not after \<open>plannedEnd\<close>, divided by
  the number of all Completed tasks, times 100. A Completed task that lacks a date stays
  in the denominator, so it counts as not on time. The result is 0 when there is no
  Completed task.
\<close>

theorem calculateForecastAccuracy_formula:
  "calculateForecastAccuracy tasks mgr =
     (let scope = (case mgr of
                     Some (c # cs) \<Rightarrow> filter (\<lambda>t. functionalManager t = c # cs) tasks
                   | _ \<Rightarrow> tasks);
          completed = filter (\<lambda>t. status t = Completed) scope;
          met = filter (\<lambda>t. plannedEnd t \<noteq> None \<and> actualEnd t \<noteq> None \<and>
                              onTime (plannedEnd t) (actualEnd t)) completed
      in if length completed = 0 then 0
         else (real (length met) / real (length completed)) * 100)"
proof -
  have eq: "(\<lambda>t. plannedEnd t \<noteq> None \<and> actualEnd t \<noteq> None \<and> onTime (plannedEnd t) (actualEnd t))
          = (\<lambda>t. onTime (plannedEnd t) (actualEnd t))"
    by (rule ext) (auto dest: onTime_dated)
  show ?thesis
    unfolding calculateForecastAccuracy_def eq Let_def
    by (simp add: conj_commute conj_left_commute split: option.split list.split)
qed

text \<open>
  C1 as stated fails: of two Completed tasks, one on time and one without an actual end,
  the code reports 50 where the specification's formula gives 100.
\<close>

theorem calculateForecastAccuracy_not_spec:
  "calculateForecastAccuracy
     [sampleTask\<lparr>status := Completed, plannedEnd := Some (Date 10), actualEnd := Some (Date 5)\<rparr>,
      sampleTask\<lparr>status := Completed, plannedEnd := Some (Date 10)\<rparr>] None = 50
   \<and> forecastAccuracy_spec
     [sampleTask\<lparr>status := Completed, plannedEnd := Some (Date 10), actualEnd := Some (Date 5)\<rparr>,
      sampleTask\<lparr>status := Completed, plannedEnd := Some (Date 10)\<rparr>] None = 100"
  by (simp add: calculateForecastAccuracy_def forecastAccuracy_spec_def sampleTask_def)

subsection \<open>Critical-path health\<close>

text \<open>
  C2 (as amended). For every non-empty task list in which no task has the
  \<open>criticalPathRisk\<close> flag, \<open>calculateCriticalPathHealth\<close> returns exactly 100, whatever
  the other fields are; for the empty list it returns 0.
\<close>

theorem calculateCriticalPathHealth_no_critical:
  "(tasks = [] \<longrightarrow> calculateCriticalPathHealth tasks = 0) \<and>
   (tasks \<noteq> [] \<and> (\<forall>t \<in> set tasks. \<not> criticalPathRisk t)
      \<longrightarrow> calculateCriticalPathHealth tasks = 100)"
  by (auto simp: calculateCriticalPathHealth_def filter_empty_conv)

theorem calculateCriticalPathHealth_no_critical_witness:
  "calculateCriticalPathHealth [] = 0 \<and>
   calculateCriticalPathHealth [sampleTask\<lparr>criticalPathVolatility := 9\<rparr>] = 100"
  using calculateCriticalPathHealth_no_critical [of "[]"]
    calculateCriticalPathHealth_no_critical [of "[sampleTask\<lparr>criticalPathVolatility := 9\<rparr>]"]
  by (simp add: sampleTask_def)

text \<open>C2 as stated fails at the empty list, which has no flagged task and scores 0.\<close>

theorem calculateCriticalPathHealth_empty:
  "filter criticalPathRisk [] = [] \<and> calculateCriticalPathHealth [] = 0 \<and>
   calculateCriticalPathHealth [] \<noteq> 100"
  by (simp add: calculateCriticalPathHealth_def)

subsection \<open>RAG predictor\<close>

text \<open>
  C3. For every ProjectMetrics value \<open>predictRAGStatus\<close> applies its rules in order, the
  first match winning: Red exactly when forecastAccuracy < 50 or genericResourcePct > 80
  or avgDurationVariance > 25 or criticalPathTasksPct > 40; Amber exactly when no Red
  condition holds and forecastAccuracy < 70 or genericResourcePct > 50 or
  avgDurationVariance > 15 or criticalPathTasksPct > 30; Green exactly when none of
  the eight conditions holds. So each input has exactly one status, and metrics with
  forecastAccuracy 45, genericResourcePct 30, avgDurationVariance 10 and
  criticalPathTasksPct 10 are Red.
\<close>

theorem predictRAGStatus_rules:
  "(predictRAGStatus m = Red \<longleftrightarrow>
      (ProjectMetrics.forecastAccuracy m < 50 \<or> ProjectMetrics.genericResourcePct m > 80 \<or>
       ProjectMetrics.avgDurationVariance m > 25 \<or> ProjectMetrics.criticalPathTasksPct m > 40)) \<and>
   (predictRAGStatus m = Amber \<longleftrightarrow>
      (50 \<le> ProjectMetrics.forecastAccuracy m \<and> ProjectMetrics.genericResourcePct m \<le> 80 \<and>
       ProjectMetrics.avgDurationVariance m \<le> 25 \<and> ProjectMetrics.criticalPathTasksPct m \<le> 40) \<and>
      (ProjectMetrics.forecastAccuracy m < 70 \<or> ProjectMetrics.genericResourcePct m > 50 \<or>
       ProjectMetrics.avgDurationVariance m > 15 \<or> ProjectMetrics.criticalPathTasksPct m > 30)) \<and>
   (predictRAGStatus m = Green \<longleftrightarrow>
      (70 \<le> ProjectMetrics.forecastAccuracy m \<and> ProjectMetrics.genericResourcePct m \<le> 50 \<and>
       ProjectMetrics.avgDurationVariance m \<le> 15 \<and> ProjectMetrics.criticalPathTasksPct m \<le> 30)) \<and>
   predictRAGStatus
     (m\<lparr>ProjectMetrics.forecastAccuracy := 45, ProjectMetrics.genericResourcePct := 30,
        ProjectMetrics.avgDurationVariance := 10, ProjectMetrics.criticalPathTasksPct := 10\<rparr>) = Red"
  by (auto simp: predictRAGStatus_def)

subsection \<open>Portfolio roll-up of the empty list\<close>

text \<open>
  C7. For the empty task list \<open>calculatePortfolioMetrics\<close> raises no error and returns
  totalProjects 0, totalTasks 0, avgForecastAccuracy 0, genericResourcePct 0,
  criticalPathTasksPct 0, a RAG distribution with Red, Amber and Green all 0, and an
  empty managerMetrics list.
\<close>

theorem calculatePortfolioMetrics_empty:
  "calculatePortfolioMetrics [] =
     Inr \<lparr> totalProjects = 0, totalTasks = 0, avgForecastAccuracy = 0, genericResourcePct = 0,
           criticalPathTasksPct = 0,
           ragDistribution = \<lparr> redTasks = 0, amberTasks = 0, greenTasks = 0 \<rparr>,
           managerMetrics = [] \<rparr>"
  by (simp add: calculatePortfolioMetrics_def)

subsection \<open>Current RAG of a project\<close>

lemma currentRAG_eq:
  "currentRAG g =
     (if ragCounts g Red \<le> ragCounts g Green \<and> ragCounts g Amber \<le> ragCounts g Green then Green
      else if ragCounts g Red \<le> ragCounts g Amber then Amber
      else Red)"
  by (auto simp: currentRAG_def)

lemma currentRAG_max: "ragCounts g r \<le> ragCounts g (currentRAG g)"
  by (cases r) (auto simp: currentRAG_def)

lemma projectMetricsOf_sel:
  "ProjectMetrics.projectName (projectMetricsOf n g) = n"
  "ragStatus (projectMetricsOf n g) = currentRAG g"
  by (simp_all add: projectMetricsOf_def Let_def)

lemma calculateProjectMetrics_Inr:
  assumes "\<not> list_ex (\<lambda>t. List.member objectPrototypeKeys (projectKey t)) tasks"
  obtains byProject where "groupTasks projectKey [] tasks = Inr byProject"
    and "calculateProjectMetrics tasks =
           Inr (map (\<lambda>(n, g). projectMetricsOf n g) (objectEntries byProject))"
proof -
  from assms obtain byProject where g: "groupTasks projectKey [] tasks = Inr byProject"
    using groupTasks_returns[of projectKey tasks] by blast
  have "calculateProjectMetrics tasks =
           Inr (map (\<lambda>(n, g). projectMetricsOf n g) (objectEntries byProject))"
  proof (cases tasks)
    case Nil
    with g show ?thesis by (simp add: calculateProjectMetrics_def objectEntries_def)
  next
    case (Cons t ts)
    with g show ?thesis by (simp add: calculateProjectMetrics_def)
  qed
  with g that show thesis by blast
qed

lemma calculateProjectMetrics_error:
  assumes "list_ex (\<lambda>t. List.member objectPrototypeKeys (projectKey t)) tasks"
  shows "calculateProjectMetrics tasks = Inl TypeError"
proof -
  from assms have "groupTasks projectKey [] tasks = Inl TypeError"
    by (simp add: groupTasks_error)
  moreover from assms have "tasks \<noteq> []" by auto
  ultimately show ?thesis by (simp add: calculateProjectMetrics_def)
qed

lemma calculateProjectMetrics_returns:
  "(\<exists>pms. calculateProjectMetrics tasks = Inr pms) \<longleftrightarrow>
     \<not> list_ex (\<lambda>t. List.member objectPrototypeKeys (projectKey t)) tasks"
  using calculateProjectMetrics_error[of tasks] calculateProjectMetrics_Inr[of tasks]
  by (metis Inl_Inr_False)

text \<open>
  C4 (as amended). For every non-empty project task group, \<open>calculateProjectMetrics\<close> sets
  the group's current \<open>ragStatus\<close> to a RAG value with the highest task count in the group,
  and when counts tie the later value in the order Red, Amber, Green wins: the status is
  Green if no count exceeds Green's, else Amber if Red's count does not exceed Amber's,
  else Red. Here the groups are those of a returned result: it has exactly one
  ProjectMetrics per project key of the input (the \<open>projectName\<close>, or "Unnamed Project" when
  that is empty), standing for the tasks with that key.
\<close>

theorem calculateProjectMetrics_ragStatus:
  assumes "calculateProjectMetrics tasks = Inr pms"
  shows "distinct (map ProjectMetrics.projectName pms) \<and>
         (\<forall>t \<in> set tasks. \<exists>pm \<in> set pms. ProjectMetrics.projectName pm = projectKey t) \<and>
         (\<forall>pm \<in> set pms.
            let g = filter (\<lambda>t. projectKey t = ProjectMetrics.projectName pm) tasks
            in g \<noteq> [] \<and>
               (\<forall>r. ragCounts g r \<le> ragCounts g (ragStatus pm)) \<and>
               ragStatus pm =
                 (if ragCounts g Red \<le> ragCounts g Green \<and> ragCounts g Amber \<le> ragCounts g Green
                  then Green
                  else if ragCounts g Red \<le> ragCounts g Amber then Amber
                  else Red))"
proof -
  from assms have "\<not> list_ex (\<lambda>t. List.member objectPrototypeKeys (projectKey t)) tasks"
    using calculateProjectMetrics_returns[of tasks] by blast
  then obtain byProject where
    grp: "groupTasks projectKey [] tasks = Inr byProject" and
    res: "calculateProjectMetrics tasks =
            Inr (map (\<lambda>(n, g). projectMetricsOf n g) (objectEntries byProject))"
    by (rule calculateProjectMetrics_Inr)
  from res assms have pms: "pms = map (\<lambda>(n, g). projectMetricsOf n g) (objectEntries byProject)"
    by simp
  have cover: "\<exists>pm \<in> set pms. ProjectMetrics.projectName pm = projectKey t"
    if "t \<in> set tasks" for t
  proof -
    from that have "projectKey t \<in> set (map fst byProject)"
      using groupTasks_groups(2)[OF grp] by simp
    then obtain g where "(projectKey t, g) \<in> set byProject" by auto
    then have "projectMetricsOf (projectKey t) g \<in> set pms"
      unfolding pms by (force simp: set_objectEntries)
    then show ?thesis using projectMetricsOf_sel(1) by blast
  qed
  have each: "let g = filter (\<lambda>t. projectKey t = ProjectMetrics.projectName pm) tasks
              in g \<noteq> [] \<and>
                 (\<forall>r. ragCounts g r \<le> ragCounts g (ragStatus pm)) \<and>
                 ragStatus pm =
                   (if ragCounts g Red \<le> ragCounts g Green \<and> ragCounts g Amber \<le> ragCounts g Green
                    then Green
                    else if ragCounts g Red \<le> ragCounts g Amber then Amber
                    else Red)" if "pm \<in> set pms" for pm
  proof -
    from that obtain n g where ng: "(n, g) \<in> set byProject" and pm: "pm = projectMetricsOf n g"
      unfolding pms by (auto simp: set_objectEntries)
    from groupTasks_groups(3)[OF grp ng]
    have g: "g = filter (\<lambda>t. projectKey t = n) tasks" "g \<noteq> []" by blast+
    show ?thesis
      unfolding Let_def pm projectMetricsOf_sel g(1)[symmetric]
      using g(2) currentRAG_max[of g] currentRAG_eq[of g] by simp
  qed
  have "map ProjectMetrics.projectName pms = map fst (objectEntries byProject)"
    unfolding pms by (auto simp: projectMetricsOf_sel)
  moreover have "distinct (map fst (objectEntries byProject))"
    using groupTasks_groups(1)[OF grp] by (rule distinct_map_objectEntries)
  ultimately have dist: "distinct (map ProjectMetrics.projectName pms)"
    by (simp only:)
  from dist cover each show ?thesis by blast
qed

theorem calculateProjectMetrics_ragStatus_witness:
  "\<exists>pm. calculateProjectMetrics
           [sampleTask\<lparr>projectHealthRAG := Red\<rparr>, sampleTask\<lparr>projectHealthRAG := Amber\<rparr>]
         = Inr [pm] \<and>
        ProjectMetrics.projectName pm = ''Apollo'' \<and> ragStatus pm = Amber"
proof -
  let ?ex = "[sampleTask\<lparr>projectHealthRAG := Red\<rparr>, sampleTask\<lparr>projectHealthRAG := Amber\<rparr>]"
  let ?pm = "projectMetricsOf ''Apollo'' ?ex"
  have r: "calculateProjectMetrics ?ex = Inr [?pm]"
    by (simp add: calculateProjectMetrics_def groupPush_def objectPrototypeKeys_def projectKey_def
          sampleTask_def objectEntries_def arrayIndex_def digitValue_def)
  have n: "ProjectMetrics.projectName ?pm = ''Apollo''"
    by (simp add: projectMetricsOf_sel)
  from calculateProjectMetrics_ragStatus [OF r]
  have "let g = filter (\<lambda>t. projectKey t = ProjectMetrics.projectName ?pm) ?ex
        in ragStatus ?pm =
             (if ragCounts g Red \<le> ragCounts g Green \<and> ragCounts g Amber \<le> ragCounts g Green
              then Green
              else if ragCounts g Red \<le> ragCounts g Amber then Amber
              else Red)"
    by (simp add: Let_def)
  then have "ragStatus ?pm = Amber"
    unfolding n by (simp add: Let_def projectKey_def sampleTask_def ragCounts_def)
  with r n show ?thesis by blast
qed

text \<open>
  C4 as stated fails: a project with one Red and one Amber task gets Amber, where the
  rule "Red wins ties" gives Red.
\<close>

theorem calculateProjectMetrics_tie:
  "map_sum id (map ragStatus)
     (calculateProjectMetrics
        [sampleTask\<lparr>projectHealthRAG := Red\<rparr>, sampleTask\<lparr>projectHealthRAG := Amber\<rparr>])
     = Inr [Amber]
   \<and> currentRAG_spec [sampleTask\<lparr>projectHealthRAG := Red\<rparr>, sampleTask\<lparr>projectHealthRAG := Amber\<rparr>]
     = Red"
  by (simp add: calculateProjectMetrics_def groupPush_def objectPrototypeKeys_def projectKey_def
        sampleTask_def objectEntries_def arrayIndex_def digitValue_def projectMetricsOf_sel
        currentRAG_def ragCounts_def currentRAG_spec_def)

subsection \<open>Manager aggregation\<close>

lemma calculateManagerMetrics_Inr:
  assumes "\<not> list_ex (\<lambda>t. List.member objectPrototypeKeys (managerKey t)) tasks"
  obtains byManager where "groupTasks managerKey [] tasks = Inr byManager"
    and "calculateManagerMetrics tasks =
           Inr (sort_key (\<lambda>m. - performanceScore m)
                  (map (\<lambda>(mgr, g). managerMetricsOf mgr g) (objectEntries byManager)))"
proof -
  from assms obtain byManager where g: "groupTasks managerKey [] tasks = Inr byManager"
    using groupTasks_returns[of managerKey tasks] by blast
  have "calculateManagerMetrics tasks =
           Inr (sort_key (\<lambda>m. - performanceScore m)
                  (map (\<lambda>(mgr, g). managerMetricsOf mgr g) (objectEntries byManager)))"
  proof (cases tasks)
    case Nil
    with g show ?thesis by (simp add: calculateManagerMetrics_def objectEntries_def)
  next
    case (Cons t ts)
    with g show ?thesis by (simp add: calculateManagerMetrics_def)
  qed
  with g that show thesis by blast
qed

lemma calculateManagerMetrics_error:
  assumes "list_ex (\<lambda>t. List.member objectPrototypeKeys (managerKey t)) tasks"
  shows "calculateManagerMetrics tasks = Inl TypeError"
proof -
  from assms have "groupTasks managerKey [] tasks = Inl TypeError"
    by (simp add: groupTasks_error)
  moreover from assms have "tasks \<noteq> []" by auto
  ultimately show ?thesis by (simp add: calculateManagerMetrics_def)
qed

lemma calculateManagerMetrics_returns:
  "(\<exists>mms. calculateManagerMetrics tasks = Inr mms) \<longleftrightarrow>
     \<not> list_ex (\<lambda>t. List.member objectPrototypeKeys (managerKey t)) tasks"
  using calculateManagerMetrics_error[of tasks] calculateManagerMetrics_Inr[of tasks]
  by (metis Inl_Inr_False)

lemma managerMetricsOf_sel:
  "manager (managerMetricsOf n g) = n"
  "ManagerMetrics.totalTasks (managerMetricsOf n g) = length g"
  by (simp_all add: managerMetricsOf_def Let_def)

lemma sum_list_insort_key:
  "sum_list (map f (insort_key k x xs)) = f x + sum_list (map f xs)" for f :: "'a \<Rightarrow> nat"
  by (induction xs) auto

lemma sum_list_sort_key:
  "sum_list (map f (sort_key k xs)) = sum_list (map f xs)" for f :: "'a \<Rightarrow> nat"
  by (induction xs) (auto simp: sum_list_insort_key)

lemma sum_list_objectEntries:
  "sum_list (map f (objectEntries obj)) = sum_list (map f obj)" for f :: "string \<times> 'v \<Rightarrow> nat"
proof -
  have "sum_list (map f (filter (\<lambda>(k, v). arrayIndex k \<noteq> None) obj)) +
        sum_list (map f (filter (\<lambda>(k, v). arrayIndex k = None) obj)) = sum_list (map f obj)"
    by (induction obj) auto
  then show ?thesis
    by (simp add: objectEntries_def sum_list_sort_key)
qed

lemma sum_list_indicator:
  "distinct ks \<Longrightarrow> a \<in> set ks \<Longrightarrow> sum_list (map (\<lambda>k. if a = k then 1 else 0) ks) = (1 :: nat)"
  by (induction ks) auto

lemma sum_list_group_sizes:
  "distinct ks \<Longrightarrow> key ` set ts \<subseteq> set ks \<Longrightarrow>
     sum_list (map (\<lambda>k. length (filter (\<lambda>t. key t = k) ts)) ks) = length ts"
proof (induction ts)
  case Nil
  then show ?case by simp
next
  case (Cons t ts)
  have "sum_list (map (\<lambda>k. length (filter (\<lambda>t. key t = k) (t # ts))) ks) =
        sum_list (map (\<lambda>k. (if key t = k then 1 else 0) + length (filter (\<lambda>t. key t = k) ts)) ks)"
    by (rule arg_cong[where f = sum_list]) auto
  also have "\<dots> = sum_list (map (\<lambda>k. if key t = k then 1 else 0) ks) +
                   sum_list (map (\<lambda>k. length (filter (\<lambda>t. key t = k) ts)) ks)"
    by (simp add: sum_list_addf)
  also have "\<dots> = 1 + length ts"
    using Cons sum_list_indicator[of ks "key t"] by simp
  finally show ?case by simp
qed

lemma calculateManagerMetrics_partition:
  assumes "calculateManagerMetrics tasks = Inr mms"
  shows "distinct (map manager mms)"
    and "set (map manager mms) = managerKey ` set tasks"
    and "\<forall>m \<in> set mms. ManagerMetrics.totalTasks m =
             length (filter (\<lambda>t. managerKey t = manager m) tasks)"
    and "sum_list (map ManagerMetrics.totalTasks mms) = length tasks"
proof -
  have ok: "\<not> list_ex (\<lambda>t. List.member objectPrototypeKeys (managerKey t)) tasks"
    using assms calculateManagerMetrics_returns[of tasks] by blast
  then obtain byManager where
    grp: "groupTasks managerKey [] tasks = Inr byManager" and
    res: "calculateManagerMetrics tasks =
            Inr (sort_key (\<lambda>m. - performanceScore m)
                   (map (\<lambda>(mgr, g). managerMetricsOf mgr g) (objectEntries byManager)))"
    by (rule calculateManagerMetrics_Inr)
  let ?ms = "map (\<lambda>(mgr, g). managerMetricsOf mgr g) (objectEntries byManager)"
  from res assms have mms: "mms = sort_key (\<lambda>m. - performanceScore m) ?ms" by simp
  have names: "map manager ?ms = map fst (objectEntries byManager)"
    by (auto simp: managerMetricsOf_sel)
  have sizes: "map ManagerMetrics.totalTasks ?ms = map (length \<circ> snd) (objectEntries byManager)"
    by (auto simp: managerMetricsOf_sel)
  note g = groupTasks_groups[OF grp]
  show "distinct (map manager mms)"
    unfolding mms distinct_map_sort_key names using g(1) by (rule distinct_map_objectEntries)
  show "set (map manager mms) = managerKey ` set tasks"
  proof -
    have "set (map manager mms) = set (map manager ?ms)" unfolding mms by (simp only: set_map set_sort)
    also have "\<dots> = set (map fst byManager)" unfolding names by (simp add: set_objectEntries)
    finally show ?thesis using g(2) by simp
  qed
  show "\<forall>m \<in> set mms. ManagerMetrics.totalTasks m =
             length (filter (\<lambda>t. managerKey t = manager m) tasks)"
  proof
    fix m assume "m \<in> set mms"
    then obtain n gr where ng: "(n, gr) \<in> set byManager" and m: "m = managerMetricsOf n gr"
      unfolding mms by (auto simp: set_objectEntries)
    from g(3)[OF ng] show "ManagerMetrics.totalTasks m =
             length (filter (\<lambda>t. managerKey t = manager m) tasks)"
      unfolding m managerMetricsOf_sel by simp
  qed
  show "sum_list (map ManagerMetrics.totalTasks mms) = length tasks"
  proof -
    have "sum_list (map ManagerMetrics.totalTasks mms) = sum_list (map ManagerMetrics.totalTasks ?ms)"
      unfolding mms by (rule sum_list_sort_key)
    also have "\<dots> = sum_list (map (length \<circ> snd) byManager)"
      unfolding sizes by (rule sum_list_objectEntries)
    also have "map (length \<circ> snd) byManager =
               map (\<lambda>k. length (filter (\<lambda>t. managerKey t = k) tasks)) (map fst byManager)"
      using g(3) by auto
    also have "sum_list \<dots> = length tasks"
      using g(1) g(2) by (intro sum_list_group_sizes) auto
    finally show ?thesis .
  qed
qed

text \<open>
  Whenever \<open>calculateManagerMetrics\<close> returns, its groups partition the input (lemma
  \<open>calculateManagerMetrics_partition\<close>): the manager names are distinct, every task's key
  is one of them, each \<open>totalTasks\<close> is the number of tasks with that key, and the counts
  add up to the length of the input.
\<close>

text \<open>
  C5. For every input task list \<open>calculateManagerMetrics\<close> should return groups that
  partition the input, tasks without a manager under "Unassigned", with \<open>totalTasks\<close>
  adding up to the length of the input. The code does not return for every list: on a
  task whose manager is named like a property of \<open>Object.prototype\<close> it throws a
  TypeError, so that no group is returned for any task.
\<close>

theorem calculateManagerMetrics_prototype_key:
  "calculateManagerMetrics [sampleTask\<lparr>functionalManager := ''constructor''\<rparr>] = Inl TypeError"
  by (simp add: calculateManagerMetrics_def managerKey_def groupPush_def objectPrototypeKeys_def
        sampleTask_def)

subsection \<open>Performance score\<close>

lemma performanceScore_spec_mono_variance:
  assumes "\<bar>dv\<bar> \<le> \<bar>dv'\<bar>"
  shows "performanceScore_spec fa dv' gp cp rag \<le> performanceScore_spec fa dv gp cp rag"
proof -
  have "max 0 (100 - \<bar>dv'\<bar>) \<le> max 0 (100 - \<bar>dv\<bar>)"
    using assms by (simp add: max_def)
  then have "0.35 * fa + 0.25 * max 0 (100 - \<bar>dv'\<bar>) + 0.20 * max 0 (100 - gp) + 0.10 * cp + 0.10 * rag
           \<le> 0.35 * fa + 0.25 * max 0 (100 - \<bar>dv\<bar>) + 0.20 * max 0 (100 - gp) + 0.10 * cp + 0.10 * rag"
    by simp
  then show ?thesis
    unfolding performanceScore_spec_def by (simp add: round_mono)
qed

lemma performanceScore_spec_mono_generic:
  assumes "gp \<le> gp'"
  shows "performanceScore_spec fa dv gp' cp rag \<le> performanceScore_spec fa dv gp cp rag"
proof -
  have "max 0 (100 - gp') \<le> max 0 (100 - gp)"
    using assms by (simp add: max_def)
  then have "0.35 * fa + 0.25 * max 0 (100 - \<bar>dv\<bar>) + 0.20 * max 0 (100 - gp') + 0.10 * cp + 0.10 * rag
           \<le> 0.35 * fa + 0.25 * max 0 (100 - \<bar>dv\<bar>) + 0.20 * max 0 (100 - gp) + 0.10 * cp + 0.10 * rag"
    by simp
  then show ?thesis
    unfolding performanceScore_spec_def by (simp add: round_mono)
qed

lemma calculatePerformanceScore_spec:
  assumes "tasks \<noteq> []"
  shows "calculatePerformanceScore tasks =
           performanceScore_spec (calculateForecastAccuracy tasks None)
             (calculateDurationVariance tasks None)
             (calculateGenericResourcePercentage tasks None)
             (calculateCriticalPathHealth tasks) (ragScore_spec tasks)"
proof -
  have "round (x * 0.35 + y * 0.25 + z * 0.20 + c * 0.10 + (g + a * 0.5) * 0.10)
      = round (0.35 * x + 0.25 * y + 0.20 * z + 0.10 * c + 0.10 * (g + 0.5 * a))"
    for x y z c g a :: real
    by (rule arg_cong[where f = round]) (simp add: algebra_simps)
  with assms show ?thesis
    by (simp add: calculatePerformanceScore_def performanceScore_spec_def ragScore_spec_def Let_def)
qed

text \<open>
  C6. For a non-empty task list the performance score is
  round(0.35 * forecastAccuracy + 0.25 * max(0, 100 - |durationVariance|) +
  0.20 * max(0, 100 - genericResourcePct) + 0.10 * criticalPathHealth + 0.10 * ragScore)
  of the list's five metrics. With forecastAccuracy, criticalPathHealth and ragScore
  held fixed, this value does not increase when |durationVariance| grows, nor when
  genericResourcePct grows.
\<close>

theorem calculatePerformanceScore_monotone:
  "(tasks \<noteq> [] \<longrightarrow>
      calculatePerformanceScore tasks =
        performanceScore_spec (calculateForecastAccuracy tasks None)
          (calculateDurationVariance tasks None)
          (calculateGenericResourcePercentage tasks None)
          (calculateCriticalPathHealth tasks) (ragScore_spec tasks)) \<and>
   (\<bar>dv\<bar> \<le> \<bar>dv'\<bar> \<longrightarrow>
      performanceScore_spec fa dv' gp cp rag \<le> performanceScore_spec fa dv gp cp rag) \<and>
   (gp \<le> gp' \<longrightarrow>
      performanceScore_spec fa dv gp' cp rag \<le> performanceScore_spec fa dv gp cp rag)"
  using calculatePerformanceScore_spec performanceScore_spec_mono_variance
    performanceScore_spec_mono_generic by blast

theorem calculatePerformanceScore_monotone_witness:
  "calculatePerformanceScore [sampleTask] =
     performanceScore_spec (calculateForecastAccuracy [sampleTask] None)
          (calculateDurationVariance [sampleTask] None)
          (calculateGenericResourcePercentage [sampleTask] None)
          (calculateCriticalPathHealth [sampleTask]) (ragScore_spec [sampleTask]) \<and>
   performanceScore_spec 80 (- 30) 20 90 50 \<le> performanceScore_spec 80 10 20 90 50 \<and>
   performanceScore_spec 80 10 50 90 50 \<le> performanceScore_spec 80 10 20 90 50"
  using calculatePerformanceScore_monotone [of "[sampleTask]" 10 "- 30" 80 20 90 50 50]
  by simp

subsection \<open>Project count of the portfolio\<close>

lemma calculatePortfolioMetrics_error:
  assumes "list_ex (\<lambda>t. List.member objectPrototypeKeys (managerKey t)) tasks"
  shows "calculatePortfolioMetrics tasks = Inl TypeError"
proof -
  from assms have "tasks \<noteq> []" by auto
  with calculateManagerMetrics_error[OF assms] show ?thesis
    by (simp add: calculatePortfolioMetrics_def Let_def)
qed

lemma calculatePortfolioMetrics_totalProjects:
  assumes "tasks \<noteq> []" "calculatePortfolioMetrics tasks = Inr pf"
  shows "totalProjects pf = card (Task.projectName ` set tasks)"
  using assms
  by (auto simp: calculatePortfolioMetrics_def Let_def length_remdups_card_conv
           split: sum.splits)

lemma calculatePortfolioMetrics_returns:
  "(\<exists>pf. calculatePortfolioMetrics tasks = Inr pf) \<longleftrightarrow>
     \<not> list_ex (\<lambda>t. List.member objectPrototypeKeys (managerKey t)) tasks"
proof
  assume "\<exists>pf. calculatePortfolioMetrics tasks = Inr pf"
  then show "\<not> list_ex (\<lambda>t. List.member objectPrototypeKeys (managerKey t)) tasks"
    using calculatePortfolioMetrics_error[of tasks] by auto
next
  assume ok: "\<not> list_ex (\<lambda>t. List.member objectPrototypeKeys (managerKey t)) tasks"
  then obtain mms where "calculateManagerMetrics tasks = Inr mms"
    using calculateManagerMetrics_returns[of tasks] by blast
  then show "\<exists>pf. calculatePortfolioMetrics tasks = Inr pf"
    by (simp add: calculatePortfolioMetrics_def Let_def)
qed

lemma calculateProjectMetrics_length:
  assumes "calculateProjectMetrics tasks = Inr pms"
  shows "length pms = card (projectKey ` set tasks)"
proof (cases tasks)
  case Nil
  with assms show ?thesis by (simp add: calculateProjectMetrics_def)
next
  case (Cons t ts)
  with assms obtain byProject where
    grp: "groupTasks projectKey [] tasks = Inr byProject" and
    pms: "pms = map (\<lambda>(n, g). projectMetricsOf n g) (objectEntries byProject)"
    by (auto simp: calculateProjectMetrics_def split: sum.splits)
  have "length pms = length (map fst byProject)"
    by (simp add: pms length_objectEntries)
  also have "\<dots> = card (set (map fst byProject))"
    using groupTasks_groups(1)[OF grp] by (simp only: distinct_card)
  finally show ?thesis
    using groupTasks_groups(2)[OF grp] by simp
qed

lemma projectKey_merges:
  assumes "[] \<in> Task.projectName ` set tasks" "''Unnamed Project'' \<in> Task.projectName ` set tasks"
  shows "card (projectKey ` set tasks) < card (Task.projectName ` set tasks)"
proof -
  let ?N = "Task.projectName ` set tasks"
  let ?f = "\<lambda>n. if n = [] then ''Unnamed Project'' else n"
  have img: "projectKey ` set tasks = ?f ` ?N"
    unfolding image_image by (rule image_cong) (simp_all add: projectKey_def)
  have "\<not> inj_on ?f ?N"
  proof
    assume "inj_on ?f ?N"
    from inj_onD[OF this _ assms] show False by simp
  qed
  then have "card (?f ` ?N) \<noteq> card ?N"
    using eq_card_imp_inj_on[of ?N ?f] by auto
  moreover have "card (?f ` ?N) \<le> card ?N"
    by (rule card_image_le) simp
  ultimately show ?thesis unfolding img by linarith
qed

lemma portfolio_exceeds_projects:
  assumes "calculatePortfolioMetrics tasks = Inr pf" "calculateProjectMetrics tasks = Inr pms"
    and "[] \<in> Task.projectName ` set tasks" "''Unnamed Project'' \<in> Task.projectName ` set tasks"
  shows "length pms < totalProjects pf"
proof -
  from assms(3) have "tasks \<noteq> []" by auto
  from calculatePortfolioMetrics_totalProjects[OF this assms(1)]
    calculateProjectMetrics_length[OF assms(2)] projectKey_merges[OF assms(3,4)]
  show ?thesis by simp
qed

text \<open>
  Whenever \<open>calculatePortfolioMetrics\<close> returns for a non-empty list, \<open>totalProjects\<close> is
  the number of distinct \<open>projectName\<close> strings, the empty string included (lemma
  \<open>calculatePortfolioMetrics_totalProjects\<close>); \<open>calculateProjectMetrics\<close> returns one group
  per project key (lemma \<open>calculateProjectMetrics_length\<close>), which are fewer when both the
  empty name and "Unnamed Project" occur (lemma \<open>portfolio_exceeds_projects\<close>).
\<close>

text \<open>
  C9. For every non-empty task list \<open>calculatePortfolioMetrics\<close> should set
  \<open>totalProjects\<close> to the number of distinct \<open>projectName\<close> strings of the input. The code
  does not return for every non-empty list: it calls \<open>calculateManagerMetrics\<close>, whose
  TypeError on a manager named like a property of \<open>Object.prototype\<close> it passes on, so
  that no \<open>totalProjects\<close> is set.
\<close>

theorem calculatePortfolioMetrics_prototype_key:
  "calculatePortfolioMetrics [sampleTask\<lparr>functionalManager := ''constructor''\<rparr>] = Inl TypeError"
  by (simp add: calculatePortfolioMetrics_def calculateManagerMetrics_def managerKey_def
        groupPush_def objectPrototypeKeys_def sampleTask_def)

subsection \<open>Behavioural patterns\<close>

lemma foldl_add: "foldl (\<lambda>s t. s + f t) a xs = a + sum_list (map f xs)" for a :: real
  by (induction xs arbitrary: a) auto

lemma calculateResourceUtilisation_mean:
  "calculateResourceUtilisation ts None =
     (let us = filter (\<lambda>u. 0 < u) (map resourceUtilisation ts)
      in if us = [] then 0 else sum_list us / real (length us))"
  by (simp add: calculateResourceUtilisation_def Let_def foldl_add filter_map comp_def)

lemma patternType_optimism: "p \<in> set (optimismPattern mms) \<Longrightarrow> patternType p = chronic_optimism"
  by (auto simp: optimismPattern_def Let_def split: list.splits)

lemma patternType_generic: "p \<in> set (genericPattern mms) \<Longrightarrow> patternType p = generic_resource_overuse"
  by (auto simp: genericPattern_def Let_def split: list.splits)

lemma patternType_instability:
  "p \<in> set (instabilityPattern tasks) \<Longrightarrow> patternType p = critical_path_instability"
  by (auto simp: instabilityPattern_def Let_def split: if_splits)

lemma patternType_hoarding:
  "p \<in> set (hoardingPattern tasks mms) \<Longrightarrow> patternType p = resource_hoarding"
  by (auto simp: hoardingPattern_def Let_def split: if_splits)

lemma length_optimism: "length (optimismPattern mms) \<le> 1"
  by (auto simp: optimismPattern_def Let_def split: list.splits)

lemma length_generic: "length (genericPattern mms) \<le> 1"
  by (auto simp: genericPattern_def Let_def split: list.splits)

lemma length_instability: "length (instabilityPattern tasks) \<le> 1"
  by (auto simp: instabilityPattern_def Let_def)

lemma length_hoarding: "length (hoardingPattern tasks mms) \<le> 1"
  by (auto simp: hoardingPattern_def Let_def)

lemma set_detect:
  "set (detectBehaviouralPatterns tasks mms) =
     set (optimismPattern mms) \<union> set (genericPattern mms) \<union> set (instabilityPattern tasks) \<union>
     set (hoardingPattern tasks mms)"
  by (auto simp: detectBehaviouralPatterns_def Let_def)

lemma hoarding_in_detect:
  "p \<in> set (detectBehaviouralPatterns tasks mms) \<and> patternType p = resource_hoarding \<longleftrightarrow>
   p \<in> set (hoardingPattern tasks mms)"
  using patternType_optimism[of p mms] patternType_generic[of p mms]
    patternType_instability[of p tasks] patternType_hoarding[of p tasks mms]
  by (auto simp: set_detect)


lemma hoardingPattern_cases:
  "hoardingPattern tasks mms =
     (if filter (isHoarder tasks) mms = [] then []
      else [\<lparr> patternType = resource_hoarding,
              severity = (if real (length (filter (isHoarder tasks) mms)) > real (length mms) * 0.3
                          then high else low),
              description =
                showNat (length (filter (isHoarder tasks) mms)) @
                '' manager(s) showing low resource utilisation (<60%)'',
              affectedManagers = map manager (filter (isHoarder tasks) mms),
              recommendation =
                ''Review resource allocation and capacity. Consider resource sharing across teams and reduce resource hoarding.'' \<rparr>])"
  by (simp add: hoardingPattern_def Let_def)

lemma calculateResourceUtilisation_spec:
  "calculateResourceUtilisation ts None = meanUtilisation_spec ts"
  by (simp add: calculateResourceUtilisation_mean meanUtilisation_spec_def)

lemma isHoarder_mean:
  "isHoarder tasks m \<longleftrightarrow>
     meanUtilisation_spec (filter (\<lambda>t. functionalManager t = manager m) tasks) < 60 \<and>
     5 < ManagerMetrics.totalTasks m"
  by (simp add: isHoarder_def calculateResourceUtilisation_spec Let_def)

text \<open>
  The rule reads a manager's tasks by \<open>functionalManager\<close>, the aggregation groups them by
  \<open>managerKey\<close>. The two agree when no task has an empty manager.
\<close>

lemma managerKey_named:
  "functionalManager t \<noteq> [] \<Longrightarrow> managerKey t = functionalManager t"
  by (simp add: managerKey_def)

lemma isHoarder_spec:
  assumes "\<forall>t \<in> set tasks. functionalManager t \<noteq> []"
  shows "isHoarder tasks = hoarder_spec tasks"
proof (rule ext)
  fix m :: ManagerMetrics
  have "filter (\<lambda>t. functionalManager t = manager m) tasks =
        filter (\<lambda>t. managerKey t = manager m) tasks"
    using assms by (intro filter_cong) (auto simp: managerKey_named)
  then show "isHoarder tasks m = hoarder_spec tasks m"
    by (simp add: isHoarder_mean hoarder_spec_def)
qed

lemma map_filter_const:
  "\<forall>t \<in> set ts. P t \<longrightarrow> f t = c \<Longrightarrow> map f (filter P ts) = replicate (length (filter P ts)) c"
  by (induction ts) auto


text \<open>
  What the code does: it emits a \<open>resource_hoarding\<close> pattern exactly when some manager of
  the metrics list satisfies \<open>isHoarder\<close>; the pattern lists these managers, with severity
  high if their number exceeds 30% of the number of all managers of the list and low
  otherwise; and a manager with \<open>totalTasks\<close> 6 is flagged when all the tasks carrying the
  manager's name have utilisation 40.
\<close>

lemma detectBehaviouralPatterns_hoarding_code:
  "((\<exists>p \<in> set (detectBehaviouralPatterns tasks mms). patternType p = resource_hoarding) \<longleftrightarrow>
      (\<exists>m \<in> set mms. isHoarder tasks m)) \<and>
   (\<forall>p \<in> set (detectBehaviouralPatterns tasks mms).
      patternType p = resource_hoarding \<longrightarrow>
        affectedManagers p = map manager (filter (isHoarder tasks) mms) \<and>
        severity p =
          (if real (length (filter (isHoarder tasks) mms)) > 0.3 * real (length mms)
           then high else low)) \<and>
   (\<forall>m \<in> set mms.
      ManagerMetrics.totalTasks m = 6 \<and>
      (\<forall>t \<in> set tasks. functionalManager t = manager m \<longrightarrow> resourceUtilisation t = 40) \<longrightarrow>
        (\<exists>p \<in> set (detectBehaviouralPatterns tasks mms).
           patternType p = resource_hoarding \<and> manager m \<in> set (affectedManagers p)))"
proof -
  have iff: "(\<exists>p \<in> set (detectBehaviouralPatterns tasks mms). patternType p = resource_hoarding) \<longleftrightarrow>
      (\<exists>m \<in> set mms. isHoarder tasks m)"
  proof -
    have "(\<exists>p \<in> set (detectBehaviouralPatterns tasks mms). patternType p = resource_hoarding) \<longleftrightarrow>
          hoardingPattern tasks mms \<noteq> []"
      using hoarding_in_detect[of _ tasks mms]
      by (metis length_greater_0_conv nth_mem empty_iff empty_set)
    also have "\<dots> \<longleftrightarrow> filter (isHoarder tasks) mms \<noteq> []"
      by (simp add: hoardingPattern_cases)
    also have "\<dots> \<longleftrightarrow> (\<exists>m \<in> set mms. isHoarder tasks m)"
      by (simp add: filter_empty_conv)
    finally show ?thesis .
  qed
  have sev: "affectedManagers p = map manager (filter (isHoarder tasks) mms) \<and>
        severity p =
          (if real (length (filter (isHoarder tasks) mms)) > 0.3 * real (length mms)
           then high else low)"
    if "p \<in> set (detectBehaviouralPatterns tasks mms)" "patternType p = resource_hoarding" for p
  proof -
    from that have "p \<in> set (hoardingPattern tasks mms)"
      using hoarding_in_detect by blast
    then show ?thesis
      by (auto simp: hoardingPattern_cases mult.commute split: if_splits)
  qed
  have scen: "\<exists>p \<in> set (detectBehaviouralPatterns tasks mms).
           patternType p = resource_hoarding \<and> manager m \<in> set (affectedManagers p)"
    if m: "m \<in> set mms" and six: "ManagerMetrics.totalTasks m = 6"
      and u: "\<forall>t \<in> set tasks. functionalManager t = manager m \<longrightarrow> resourceUtilisation t = 40"
    for m
  proof -
    let ?mt = "filter (\<lambda>t. functionalManager t = manager m) tasks"
    have all40: "map resourceUtilisation ?mt = replicate (length ?mt) 40"
      using u by (rule map_filter_const)
    have "meanUtilisation_spec ?mt < 60"
      unfolding meanUtilisation_spec_def all40
      by (simp add: Let_def sum_list_replicate)
    with six have "isHoarder tasks m"
      by (simp add: isHoarder_mean)
    with m have mem: "m \<in> set (filter (isHoarder tasks) mms)" by simp
    then have "filter (isHoarder tasks) mms \<noteq> []" by (auto simp: filter_empty_conv)
    then obtain p where p: "hoardingPattern tasks mms = [p]"
      "affectedManagers p = map manager (filter (isHoarder tasks) mms)"
      by (simp add: hoardingPattern_cases)
    then have "p \<in> set (detectBehaviouralPatterns tasks mms)" "patternType p = resource_hoarding"
      using hoarding_in_detect[of p tasks mms] by simp_all
    moreover have "manager m \<in> set (affectedManagers p)"
      using mem p(2) by auto
    ultimately show ?thesis by blast
  qed
  from iff sev scen show ?thesis by blast
qed

lemma detectBehaviouralPatterns_hoarding_scenario:
  "calculateManagerMetrics (replicate 6 (sampleTask\<lparr>resourceUtilisation := 40\<rparr>)) =
     Inr [managerMetricsOf ''Alice'' (replicate 6 (sampleTask\<lparr>resourceUtilisation := 40\<rparr>))] \<and>
   (\<exists>p \<in> set (detectBehaviouralPatterns (replicate 6 (sampleTask\<lparr>resourceUtilisation := 40\<rparr>))
                 [managerMetricsOf ''Alice'' (replicate 6 (sampleTask\<lparr>resourceUtilisation := 40\<rparr>))]).
      patternType p = resource_hoarding \<and> ''Alice'' \<in> set (affectedManagers p) \<and> severity p = high)"
proof -
  let ?ts = "replicate 6 (sampleTask\<lparr>resourceUtilisation := 40\<rparr>)"
  let ?m = "managerMetricsOf ''Alice'' ?ts"
  have ts: "?ts = [sampleTask\<lparr>resourceUtilisation := 40\<rparr>, sampleTask\<lparr>resourceUtilisation := 40\<rparr>,
                   sampleTask\<lparr>resourceUtilisation := 40\<rparr>, sampleTask\<lparr>resourceUtilisation := 40\<rparr>,
                   sampleTask\<lparr>resourceUtilisation := 40\<rparr>, sampleTask\<lparr>resourceUtilisation := 40\<rparr>]"
    by (simp add: numeral_eq_Suc)
  have fm: "functionalManager (sampleTask\<lparr>resourceUtilisation := 40\<rparr>) = ''Alice''"
    by (simp add: sampleTask_def)
  have mk: "managerKey (sampleTask\<lparr>resourceUtilisation := 40\<rparr>) = ''Alice''"
    by (simp add: managerKey_def fm)
  have run: "calculateManagerMetrics ?ts = Inr [?m]"
    unfolding ts
    by (simp add: calculateManagerMetrics_def mk groupPush_def objectPrototypeKeys_def
          objectEntries_def arrayIndex_def digitValue_def)
  have pre: "ManagerMetrics.totalTasks ?m = 6 \<and>
      (\<forall>t \<in> set ?ts. functionalManager t = manager ?m \<longrightarrow> resourceUtilisation t = 40)"
    by (simp add: managerMetricsOf_sel fm)
  from detectBehaviouralPatterns_hoarding_code[of ?ts "[?m]"] pre obtain p where
    p: "p \<in> set (detectBehaviouralPatterns ?ts [?m])" "patternType p = resource_hoarding"
       "manager ?m \<in> set (affectedManagers p)"
    by auto
  from detectBehaviouralPatterns_hoarding_code[of ?ts "[?m]"] p have
    "severity p = (if real (length (filter (isHoarder ?ts) [?m])) > 0.3 * real (length [?m])
           then high else low)"
      and "affectedManagers p = map manager (filter (isHoarder ?ts) [?m])"
    by blast+
  with p(3) have "severity p = high"
    by (auto split: if_splits)
  with p run show ?thesis by (auto simp: managerMetricsOf_sel)
qed

text \<open>
  On a task list without empty managers the rule is the one of the specification.
\<close>

lemma detectBehaviouralPatterns_hoarding_named:
  assumes "\<forall>t \<in> set tasks. functionalManager t \<noteq> []"
  shows "(\<exists>p \<in> set (detectBehaviouralPatterns tasks mms). patternType p = resource_hoarding) \<longleftrightarrow>
         (\<exists>m \<in> set mms. hoarder_spec tasks m)"
  using detectBehaviouralPatterns_hoarding_code[of tasks mms] isHoarder_spec[OF assms]
  by simp

text \<open>
  C8. \<open>detectBehaviouralPatterns\<close> should emit a \<open>resource_hoarding\<close> pattern exactly when
  some manager has a mean resource utilisation below 60, over that manager's tasks with
  utilisation above 0, and \<open>totalTasks\<close> above 5. The code does not: the aggregation puts the
  tasks with an empty manager into the group "Unassigned", and the rule then looks for
  tasks whose \<open>functionalManager\<close> is literally "Unassigned". For six tasks with an empty
  manager and utilisation 90 it finds none, reads the mean as 0 and flags "Unassigned",
  whose tasks have a mean utilisation of 90.
\<close>

theorem detectBehaviouralPatterns_unassigned_bucket:
  "calculateManagerMetrics
     (replicate 6 (sampleTask\<lparr>functionalManager := [], resourceUtilisation := 90\<rparr>)) =
     Inr [managerMetricsOf ''Unassigned''
            (replicate 6 (sampleTask\<lparr>functionalManager := [], resourceUtilisation := 90\<rparr>))] \<and>
   map patternType
     (detectBehaviouralPatterns
        (replicate 6 (sampleTask\<lparr>functionalManager := [], resourceUtilisation := 90\<rparr>))
        [managerMetricsOf ''Unassigned''
           (replicate 6 (sampleTask\<lparr>functionalManager := [], resourceUtilisation := 90\<rparr>))]) =
     [resource_hoarding] \<and>
   map affectedManagers
     (detectBehaviouralPatterns
        (replicate 6 (sampleTask\<lparr>functionalManager := [], resourceUtilisation := 90\<rparr>))
        [managerMetricsOf ''Unassigned''
           (replicate 6 (sampleTask\<lparr>functionalManager := [], resourceUtilisation := 90\<rparr>))]) =
     [[''Unassigned'']] \<and>
   meanUtilisation_spec
     (filter (\<lambda>t. managerKey t = ''Unassigned'')
        (replicate 6 (sampleTask\<lparr>functionalManager := [], resourceUtilisation := 90\<rparr>))) = 90 \<and>
   \<not> hoarder_spec
        (replicate 6 (sampleTask\<lparr>functionalManager := [], resourceUtilisation := 90\<rparr>))
        (managerMetricsOf ''Unassigned''
           (replicate 6 (sampleTask\<lparr>functionalManager := [], resourceUtilisation := 90\<rparr>)))"
proof -
  let ?t = "sampleTask\<lparr>functionalManager := [], resourceUtilisation := 90\<rparr>"
  let ?ts = "replicate 6 ?t"
  let ?m = "managerMetricsOf ''Unassigned'' ?ts"
  have ts: "?ts = [?t, ?t, ?t, ?t, ?t, ?t]"
    by (simp add: numeral_eq_Suc)
  have fm: "functionalManager ?t = []" and ut: "resourceUtilisation ?t = 90"
    by (simp_all add: sampleTask_def)
  have mk: "managerKey ?t = ''Unassigned''"
    by (simp add: managerKey_def fm)
  have run: "calculateManagerMetrics ?ts = Inr [?m]"
    unfolding ts
    by (simp add: calculateManagerMetrics_def mk groupPush_def objectPrototypeKeys_def
          objectEntries_def arrayIndex_def digitValue_def)
  have mean: "meanUtilisation_spec (filter (\<lambda>t. managerKey t = ''Unassigned'') ?ts) = 90"
    unfolding ts by (simp add: meanUtilisation_spec_def mk ut)
  then have spec: "\<not> hoarder_spec ?ts ?m"
    by (simp add: hoarder_spec_def managerMetricsOf_sel)
  have none: "filter (\<lambda>t. functionalManager t = manager ?m) ?ts = []"
    by (simp add: managerMetricsOf_sel fm)
  have hoards: "isHoarder ?ts ?m"
    unfolding isHoarder_mean none
    by (simp add: meanUtilisation_spec_def managerMetricsOf_sel)
  then have hp: "map patternType (hoardingPattern ?ts [?m]) = [resource_hoarding]"
    "map affectedManagers (hoardingPattern ?ts [?m]) = [[''Unassigned'']]"
    by (simp_all add: hoardingPattern_cases managerMetricsOf_sel)
  have dv: "ManagerMetrics.avgDurationVariance ?m = 0"
    unfolding ts by (simp add: managerMetricsOf_def calculateDurationVariance_def sampleTask_def)
  have gp: "ManagerMetrics.genericResourcePct ?m = 0"
    unfolding ts
    by (simp add: managerMetricsOf_def calculateGenericResourcePercentage_def sampleTask_def
          genericPatterns_test_def genericPatterns_def toLowerASCII_def)
  have op: "optimismPattern [?m] = []"
    by (simp add: optimismPattern_def dv)
  have gn: "genericPattern [?m] = []"
    by (simp add: genericPattern_def gp)
  have ip: "instabilityPattern ?ts = []"
    unfolding ts by (simp add: instabilityPattern_def sampleTask_def)
  obtain p where p: "hoardingPattern ?ts [?m] = [p]"
    using hp(1) by (cases "hoardingPattern ?ts [?m]") auto
  have det: "detectBehaviouralPatterns ?ts [?m] = hoardingPattern ?ts [?m]"
    unfolding detectBehaviouralPatterns_def Let_def op gn ip p by simp
  from run mean spec hp show ?thesis
    unfolding det by simp
qed

text \<open>
  C10. For every task list and manager-metrics list \<open>detectBehaviouralPatterns\<close> returns
  at most one pattern per \<open>patternType\<close>, hence at most four patterns, in non-increasing
  order of severity, where high is above medium and medium above low.
\<close>

theorem detectBehaviouralPatterns_shape:
  "distinct (map patternType (detectBehaviouralPatterns tasks mms)) \<and>
   length (detectBehaviouralPatterns tasks mms) \<le> 4 \<and>
   sorted_wrt (\<lambda>p q. severityOrder (severity q) \<le> severityOrder (severity p))
     (detectBehaviouralPatterns tasks mms) \<and>
   severityOrder low < severityOrder medium \<and> severityOrder medium < severityOrder high"
proof -
  let ?ps = "optimismPattern mms @ genericPattern mms @ instabilityPattern tasks @
             hoardingPattern tasks mms"
  have det: "detectBehaviouralPatterns tasks mms = sort_key (\<lambda>p. - severityOrder (severity p)) ?ps"
    by (simp add: detectBehaviouralPatterns_def Let_def)
  have one: "length xs \<le> 1 \<Longrightarrow> distinct (map patternType xs)" for xs :: "BehaviouralPattern list"
    by (cases xs) auto
  have d: "distinct (map patternType ?ps)"
    using one[OF length_optimism[of mms]] one[OF length_generic[of mms]]
      one[OF length_instability[of tasks]] one[OF length_hoarding[of tasks mms]]
    by (auto dest!: patternType_optimism patternType_generic patternType_instability
          patternType_hoarding)
  have 1: "distinct (map patternType (detectBehaviouralPatterns tasks mms))"
    unfolding det distinct_map_sort_key by (rule d)
  have 2: "length (detectBehaviouralPatterns tasks mms) \<le> 4"
    unfolding det
    using length_optimism[of mms] length_generic[of mms] length_instability[of tasks]
      length_hoarding[of tasks mms]
    by simp
  have "sorted (map (\<lambda>p. - severityOrder (severity p)) (detectBehaviouralPatterns tasks mms))"
    unfolding det by (rule sorted_sort_key)
  then have 3: "sorted_wrt (\<lambda>p q. severityOrder (severity q) \<le> severityOrder (severity p))
     (detectBehaviouralPatterns tasks mms)"
    by (simp add: sorted_map)
  have 4: "severityOrder low < severityOrder medium \<and> severityOrder medium < severityOrder high"
    by (simp add: severityOrder_def)
  from 1 2 3 4 show ?thesis by blast
qed

end
